theory Spec2Isabelle
  imports Main "HOL-Library.Word" "HOL-Library.Signed_Division"
begin

section \<open>C++ integers\<close>

text \<open>
  The gallery stores image IDs, counts and sizes in C++ \<open>int\<close>: 32-bit two's complement.
  They are modelled as 32-bit words read with \<open>sint\<close> and compared with the signed
  orders \<open><s\<close> and \<open>\<le>s\<close>. Addition and subtraction wrap around, which is what the
  compiled code does where the C++ standard leaves signed overflow undefined.
  The operator \<open>%\<close> truncates towards zero (\<open>smod\<close> on the signed values); its
  second operand is never zero where the code uses it.
\<close>

type_synonym cint = "32 word"

definition c_rem :: "cint \<Rightarrow> cint \<Rightarrow> cint" where
  "c_rem a b = word_of_int (sint a smod sint b)"

text \<open>\<open>qMax(a, b)\<close> is \<open>(a < b) ? b : a\<close>.\<close>

definition qMax :: "cint \<Rightarrow> cint \<Rightarrow> cint" where
  "qMax a b = (if a <s b then b else a)"


section \<open>UINavigator (uinavigator.cpp)\<close>

record UINavigator =
  m_currentImageId :: cint
  m_maxImageId :: cint

text \<open>
  Every mutating member function returns the values carried by the \<open>imageIdChanged\<close>
  signals it emits, in order, beside the new state; \<open>next\<close> and \<open>previous\<close> also
  return their \<open>bool\<close>. The constructor emits nothing.
\<close>

definition UINavigator_ctor :: "cint \<Rightarrow> cint \<Rightarrow> UINavigator" where
  "UINavigator_ctor initialImageId maxImageId =
     (let nav = \<lparr>m_currentImageId = initialImageId, m_maxImageId = maxImageId\<rparr>;
          nav = (if m_currentImageId nav <s 0 then nav\<lparr>m_currentImageId := 0\<rparr> else nav);
          nav = (if m_maxImageId nav <s m_currentImageId nav
                 then nav\<lparr>m_currentImageId := m_maxImageId nav\<rparr> else nav)
      in nav)"

definition UINavigator_currentImageId :: "UINavigator \<Rightarrow> cint" where
  "UINavigator_currentImageId nav = m_currentImageId nav"

definition UINavigator_maxImageId :: "UINavigator \<Rightarrow> cint" where
  "UINavigator_maxImageId nav = m_maxImageId nav"

definition UINavigator_setMaxImageId :: "cint \<Rightarrow> UINavigator \<Rightarrow> cint list \<times> UINavigator" where
  "UINavigator_setMaxImageId maxId0 nav =
     (let maxId = (if maxId0 <s 0 then 0 else maxId0) in
      if m_maxImageId nav \<noteq> maxId then
        (let nav1 = nav\<lparr>m_maxImageId := maxId\<rparr> in
         if m_maxImageId nav1 <s m_currentImageId nav1 then
           (let nav2 = nav1\<lparr>m_currentImageId := m_maxImageId nav1\<rparr>
            in ([m_currentImageId nav2], nav2))
         else ([], nav1))
      else ([], nav))"

definition UINavigator_next :: "UINavigator \<Rightarrow> bool \<times> cint list \<times> UINavigator" where
  "UINavigator_next nav =
     (if m_maxImageId nav <s 0 then (False, [], nav)
      else
        (let nav1 = nav\<lparr>m_currentImageId :=
                          c_rem (m_currentImageId nav + 1) (m_maxImageId nav + 1)\<rparr>
         in (True, [m_currentImageId nav1], nav1)))"

definition UINavigator_previous :: "UINavigator \<Rightarrow> bool \<times> cint list \<times> UINavigator" where
  "UINavigator_previous nav =
     (if m_maxImageId nav <s 0 then (False, [], nav)
      else
        (let nav1 = (if m_currentImageId nav = 0
                     then nav\<lparr>m_currentImageId := m_maxImageId nav\<rparr>
                     else nav\<lparr>m_currentImageId := m_currentImageId nav - 1\<rparr>)
         in (True, [m_currentImageId nav1], nav1)))"

text \<open>
  Sequences of calls on one navigator: the signals of the whole sequence and the final
  state. The states reachable from a constructed navigator are the results of \<open>nav_run\<close>.
\<close>

datatype nav_call = Next | Previous | SetMaxImageId cint

fun nav_call_run :: "nav_call \<Rightarrow> UINavigator \<Rightarrow> cint list \<times> UINavigator" where
  "nav_call_run Next nav = snd (UINavigator_next nav)"
| "nav_call_run Previous nav = snd (UINavigator_previous nav)"
| "nav_call_run (SetMaxImageId m) nav = UINavigator_setMaxImageId m nav"

fun nav_run :: "nav_call list \<Rightarrow> UINavigator \<Rightarrow> cint list \<times> UINavigator" where
  "nav_run [] nav = ([], nav)"
| "nav_run (c # cs) nav =
     (case nav_call_run c nav of (out, nav1) \<Rightarrow>
        (case nav_run cs nav1 of (outs, nav2) \<Rightarrow> (out @ outs, nav2)))"

text \<open>The invariant the specification gives for the navigator state.\<close>

definition nav_inv :: "UINavigator \<Rightarrow> bool" where
  "nav_inv nav =
     (if 0 \<le>s m_maxImageId nav
      then 0 \<le>s m_currentImageId nav \<and> m_currentImageId nav \<le>s m_maxImageId nav
      else m_currentImageId nav = 0)"


section \<open>QImage and ImageCache (imagecache.cpp)\<close>

text \<open>
  The code looks at an image only through \<open>isNull\<close>; the pixel data is a type
  parameter. \<open>NullImage\<close> is the default-constructed \<open>QImage()\<close>.
\<close>

datatype 'px QImage = NullImage | Pixels 'px

fun isNull :: "'px QImage \<Rightarrow> bool" where
  "isNull NullImage = True"
| "isNull (Pixels p) = False"

text \<open>The only member of the class is the hash table \<open>QHash<int, QImage>\<close>.\<close>

type_synonym 'px ImageCache = "cint \<rightharpoonup> 'px QImage"

definition ImageCache_ctor :: "'px ImageCache" where
  "ImageCache_ctor = Map.empty"

definition QHash_contains :: "'px ImageCache \<Rightarrow> cint \<Rightarrow> bool" where
  "QHash_contains c id' = (c id' \<noteq> None)"

text \<open>\<open>QHash::value\<close> returns a default-constructed value for a missing key.\<close>

definition QHash_value :: "'px ImageCache \<Rightarrow> cint \<Rightarrow> 'px QImage" where
  "QHash_value c id' = (case c id' of None \<Rightarrow> NullImage | Some image' \<Rightarrow> image')"

definition ImageCache_setImage :: "cint \<Rightarrow> 'px QImage \<Rightarrow> 'px ImageCache \<Rightarrow> 'px ImageCache" where
  "ImageCache_setImage id' image' c = (if isNull image' then c else c(id' \<mapsto> image'))"

definition ImageCache_getImage :: "'px ImageCache \<Rightarrow> cint \<Rightarrow> 'px QImage" where
  "ImageCache_getImage c id' = (if QHash_contains c id' then QHash_value c id' else NullImage)"

definition ImageCache_contains :: "'px ImageCache \<Rightarrow> cint \<Rightarrow> bool" where
  "ImageCache_contains c id' = QHash_contains c id'"

definition ImageCache_removeImage :: "cint \<Rightarrow> 'px ImageCache \<Rightarrow> 'px ImageCache" where
  "ImageCache_removeImage id' c = c(id' := None)"

definition ImageCache_clear :: "'px ImageCache \<Rightarrow> 'px ImageCache" where
  "ImageCache_clear c = Map.empty"

text \<open>Sequences of mutating calls on one cache.\<close>

datatype 'px cache_call = SetImage cint "'px QImage" | RemoveImage cint | Clear

fun cache_call_run :: "'px cache_call \<Rightarrow> 'px ImageCache \<Rightarrow> 'px ImageCache" where
  "cache_call_run (SetImage id' image') c = ImageCache_setImage id' image' c"
| "cache_call_run (RemoveImage id') c = ImageCache_removeImage id' c"
| "cache_call_run Clear c = ImageCache_clear c"

fun cache_run :: "'px cache_call list \<Rightarrow> 'px ImageCache \<Rightarrow> 'px ImageCache" where
  "cache_run [] c = c"
| "cache_run (x # xs) c = cache_run xs (cache_call_run x c)"

text \<open>
  A call disturbs the entry of \<open>id\<close> when it removes \<open>id\<close>, clears the cache, or stores
  a non-null image under \<open>id\<close>.
\<close>

fun disturbs :: "cint \<Rightarrow> 'px cache_call \<Rightarrow> bool" where
  "disturbs id' (SetImage k image') = (k = id' \<and> \<not> isNull image')"
| "disturbs id' (RemoveImage k) = (k = id')"
| "disturbs id' Clear = True"


section \<open>ImageLoader (imageloader.cpp)\<close>

record QSize =
  wd :: cint
  ht :: cint

text \<open>
  What the loader asks of Qt and of the file system is a parameter of the model:
  \<^item> \<open>qdir_exists dir\<close>: \<open>QDir(dir).exists()\<close>;
  \<^item> \<open>qdir_entryInfoList dir filters\<close>: the absolute paths of the files of \<open>dir\<close> that
    match the name filters, in the order of the directory listing;
  \<^item> \<open>qimage_new size\<close>: \<open>QImage(size, QImage::Format_RGB32)\<close>;
  \<^item> \<open>qimage_fill image colour\<close>: the image after \<open>fill(QColor(colour))\<close>;
  \<^item> \<open>qpainter_drawNumber image id\<close>: the image after a \<open>QPainter\<close> on it, with
    antialiasing, a white pen and the bold 72 point Arial font, has drawn
    \<open>QString::number(id)\<close> centred in the image's rectangle;
  \<^item> \<open>qimage_load path\<close>: a default-constructed image after \<open>load(path)\<close>, still
    null when the file cannot be decoded;
  \<^item> \<open>qimage_scaled image size\<close>:
    \<open>image.scaled(size, Qt::KeepAspectRatio, Qt::SmoothTransformation)\<close>.
\<close>

record 'px qt_env =
  qdir_exists :: "string \<Rightarrow> bool"
  qdir_entryInfoList :: "string \<Rightarrow> string list \<Rightarrow> string list"
  qimage_new :: "QSize \<Rightarrow> 'px QImage"
  qimage_fill :: "'px QImage \<Rightarrow> string \<Rightarrow> 'px QImage"
  qpainter_drawNumber :: "'px QImage \<Rightarrow> cint \<Rightarrow> 'px QImage"
  qimage_load :: "string \<Rightarrow> 'px QImage"
  qimage_scaled :: "'px QImage \<Rightarrow> QSize \<Rightarrow> 'px QImage"

text \<open>
  \<open>m_imageCache\<close> is a pointer to a cache the loader does not own: \<open>None\<close> is the
  null pointer, which the constructor accepts with a warning.
\<close>

record 'px ImageLoader =
  m_imageDirPath :: string
  m_maxConfiguredImages :: cint
  m_maxPreviewSize :: QSize
  m_imagePaths :: "string list"
  m_imageCache :: "'px ImageCache option"

datatype 'px signal = imageLoaded cint "'px QImage" | loadingError cint string

fun signal_id :: "'px signal \<Rightarrow> cint" where
  "signal_id (imageLoaded id' image') = id'"
| "signal_id (loadingError id' message) = id'"

definition populateImagePaths :: "'px qt_env \<Rightarrow> 'px ImageLoader \<Rightarrow> 'px ImageLoader" where
  "populateImagePaths env l =
     (if \<not> qdir_exists env (m_imageDirPath l) then l
      else
        (let filters = [''*.png'', ''*.jpg'', ''*.jpeg'', ''*.gif'', ''*.bmp'', ''*.webp''];
             fileList = qdir_entryInfoList env (m_imageDirPath l) filters
         in l\<lparr>m_imagePaths := fold (\<lambda>fileInfo paths. paths @ [fileInfo]) fileList []\<rparr>))"

definition ImageLoader_ctor ::
  "'px qt_env \<Rightarrow> string \<Rightarrow> cint \<Rightarrow> QSize \<Rightarrow> 'px ImageCache option \<Rightarrow> 'px ImageLoader" where
  "ImageLoader_ctor env imageDirPath maxImages maxPreviewSize cache =
     populateImagePaths env
       \<lparr>m_imageDirPath = imageDirPath, m_maxConfiguredImages = maxImages,
        m_maxPreviewSize = maxPreviewSize, m_imagePaths = [], m_imageCache = cache\<rparr>"

definition generatePlaceholderImage :: "'px qt_env \<Rightarrow> 'px ImageLoader \<Rightarrow> cint \<Rightarrow> 'px QImage" where
  "generatePlaceholderImage env l id' =
     (let placeholder = qimage_new env (m_maxPreviewSize l);
          placeholder = qimage_fill env placeholder ''#444444''
      in qpainter_drawNumber env placeholder id')"

text \<open>\<open>QVector::size\<close> returns an \<open>int\<close>.\<close>

definition QVector_size :: "'a list \<Rightarrow> cint" where
  "QVector_size xs = word_of_nat (length xs)"

definition imageCount :: "'px ImageLoader \<Rightarrow> cint" where
  "imageCount l = qMax (QVector_size (m_imagePaths l)) (m_maxConfiguredImages l)"

text \<open>
  \<open>loadImageAsync\<close> changes no member. It returns the signals emitted before the call
  returns and the single-shot timers it has started, each one the \<open>id\<close> its callback
  has captured. \<open>loadImageAsync_timeout\<close> is that callback, run by the event loop
  50 ms later on the loader as it is then: it returns the signals it emits and the
  loader with the shared cache updated, or \<open>None\<close> where \<open>QVector::at\<close> is called
  with an index out of range.
\<close>

definition loadImageAsync :: "'px qt_env \<Rightarrow> cint \<Rightarrow> 'px ImageLoader \<Rightarrow> 'px signal list \<times> cint list" where
  "loadImageAsync env id' l =
     (if id' <s 0 \<or> imageCount l \<le>s id'
      then ([loadingError id' ''Image ID out of bounds.''], [])
      else
        (case m_imageCache l of
           None \<Rightarrow> ([], [id'])
         | Some c \<Rightarrow>
             if ImageCache_contains c id'
             then ([imageLoaded id' (ImageCache_getImage c id')], [])
             else ([], [id'])))"

definition loadImageAsync_timeout ::
  "'px qt_env \<Rightarrow> cint \<Rightarrow> 'px ImageLoader \<Rightarrow> ('px signal list \<times> 'px ImageLoader) option" where
  "loadImageAsync_timeout env id' l =
     (case
        (if id' <s QVector_size (m_imagePaths l) then
           (if 0 \<le> sint id' \<and> nat (sint id') < length (m_imagePaths l) then
              (let imagePath = m_imagePaths l ! nat (sint id');
                   loadedImage = qimage_load env imagePath
               in Some (if isNull loadedImage then generatePlaceholderImage env l id'
                        else loadedImage))
            else None)
         else Some (generatePlaceholderImage env l id'))
      of
        None \<Rightarrow> None
      | Some loadedImage \<Rightarrow>
          if \<not> isNull loadedImage then
            (let scaledImage = qimage_scaled env loadedImage (m_maxPreviewSize l);
                 l1 = (case m_imageCache l of
                         None \<Rightarrow> l
                       | Some c \<Rightarrow> l\<lparr>m_imageCache := Some (ImageCache_setImage id' scaledImage c)\<rparr>)
             in Some ([imageLoaded id' scaledImage], l1))
          else Some ([loadingError id' ''Failed to load or generate image.''], l))"


section \<open>A concrete Qt for examples\<close>

text \<open>
  Pixel data that records how an image was made, and an environment that follows
  Qt on null images: an image constructed with an empty size is null, filling or
  painting a null image leaves it null, and scaling to an empty size gives a null
  image. The directory \<open>/gallery\<close> holds three image files, of which only the first
  can be decoded.
\<close>

datatype pixmap =
    Blank QSize
  | Filled string pixmap
  | Numbered cint pixmap
  | Decoded string
  | Resampled QSize pixmap

definition QSize_isEmpty :: "QSize \<Rightarrow> bool" where
  "QSize_isEmpty s = (wd s <s 1 \<or> ht s <s 1)"

definition gallery_files :: "string list" where
  "gallery_files = [''/gallery/a.png'', ''/gallery/b.jpg'', ''/gallery/c.bmp'']"

definition gallery_env :: "pixmap qt_env" where
  "gallery_env =
     \<lparr>qdir_exists = (\<lambda>dir. dir = ''/gallery''),
      qdir_entryInfoList = (\<lambda>dir filters. if dir = ''/gallery'' then gallery_files else []),
      qimage_new = (\<lambda>size'. if QSize_isEmpty size' then NullImage else Pixels (Blank size')),
      qimage_fill = (\<lambda>image' colour.
         case image' of NullImage \<Rightarrow> NullImage | Pixels p \<Rightarrow> Pixels (Filled colour p)),
      qpainter_drawNumber = (\<lambda>image' id'.
         case image' of NullImage \<Rightarrow> NullImage | Pixels p \<Rightarrow> Pixels (Numbered id' p)),
      qimage_load = (\<lambda>path. if path = ''/gallery/a.png'' then Pixels (Decoded path) else NullImage),
      qimage_scaled = (\<lambda>image' size'.
         case image' of
           NullImage \<Rightarrow> NullImage
         | Pixels p \<Rightarrow> if QSize_isEmpty size' then NullImage else Pixels (Resampled size' p))\<rparr>"

definition full_hd :: QSize where
  "full_hd = \<lparr>wd = 1920, ht = 1080\<rparr>"

definition empty_size :: QSize where
  "empty_size = \<lparr>wd = 0, ht = 0\<rparr>"

definition gallery_loader :: "QSize \<Rightarrow> pixmap ImageLoader" where
  "gallery_loader size' = ImageLoader_ctor gallery_env ''/gallery'' 15 size' (Some ImageCache_ctor)"


section \<open>Signed 32-bit arithmetic\<close>

lemma sint_cint_bounds: "- 2147483648 \<le> sint (x::cint)" "sint (x::cint) \<le> 2147483647"
  using sint_ge [of x] sint_lt [of x] by simp_all

lemma sint_succ:
  "sint (x + 1 :: cint) = (if sint x = 2147483647 then - 2147483648 else sint x + 1)"
  using sint_cint_bounds [of x]
  by (auto simp add: sint_word_ariths signed_take_bit_eq_take_bit_shift take_bit_eq_mod)

lemma sint_pred:
  "sint (x - 1 :: cint) = (if sint x = - 2147483648 then 2147483647 else sint x - 1)"
  using sint_cint_bounds [of x]
  by (auto simp add: sint_word_ariths signed_take_bit_eq_take_bit_shift take_bit_eq_mod)

lemma cint_eq_iff: "(x :: cint) = y \<longleftrightarrow> sint x = sint y"
  by (auto simp: signed_word_eqI)

lemma cint_sint_le_uint: "sint (w :: cint) \<le> uint w"
proof -
  have "- (2 ^ 31) \<le> uint w"
    by (rule order_trans [of _ 0]) simp_all
  then have "signed_take_bit 31 (uint w) \<le> uint w"
    by (simp only: signed_take_bit_int_less_eq_self_iff)
  then show ?thesis by (simp add: sint_uint)
qed

text \<open>
  The remainder in \<open>next\<close>, for a current ID between 0 and the maximum. It is right
  also when the maximum is \<open>INT_MAX\<close> and \<open>m + 1\<close> wraps to \<open>INT_MIN\<close>.
\<close>

lemma c_rem_succ:
  assumes "0 \<le> sint c" and "sint c \<le> sint m"
  shows "c_rem (c + 1) (m + 1) = (if c = m then 0 else c + 1)"
proof (cases "c = m")
  case True
  have "sint (m + 1) smod sint (m + 1) = 0"
    by (simp add: smod_int_alt_def)
  with True show ?thesis by (simp add: c_rem_def)
next
  case False
  with assms have lt: "sint c < sint m" by (simp add: cint_eq_iff)
  with sint_cint_bounds [of m] have c1: "sint (c + 1) = sint c + 1"
    by (simp add: sint_succ)
  have "sint (c + 1) smod sint (m + 1) = sint (c + 1)"
    using lt assms c1 by (cases "sint m = 2147483647") (simp_all add: sint_succ smod_int_alt_def)
  with False show ?thesis by (simp add: c_rem_def)
qed

lemma sint_wrap_succ:
  assumes "0 \<le> sint c" and "sint c \<le> sint m"
  shows "sint (if c = m then 0 else c + 1 :: cint) = (sint c + 1) mod (sint m + 1)"
  using assms sint_cint_bounds [of m] by (auto simp add: sint_succ cint_eq_iff)


section \<open>The navigator\<close>

lemma next_unfold:
  assumes "0 \<le> sint (m_maxImageId nav)" and "0 \<le> sint (m_currentImageId nav)"
    and "sint (m_currentImageId nav) \<le> sint (m_maxImageId nav)"
  shows "UINavigator_next nav =
    (let c = (if m_currentImageId nav = m_maxImageId nav then 0 else m_currentImageId nav + 1)
     in (True, [c], nav\<lparr>m_currentImageId := c\<rparr>))"
  using assms by (simp add: UINavigator_next_def word_sless_alt c_rem_succ Let_def)

lemma previous_unfold:
  assumes "0 \<le> sint (m_maxImageId nav)"
  shows "UINavigator_previous nav =
    (let c = (if m_currentImageId nav = 0 then m_maxImageId nav else m_currentImageId nav - 1)
     in (True, [c], nav\<lparr>m_currentImageId := c\<rparr>))"
  using assms by (simp add: UINavigator_previous_def word_sless_alt Let_def)

text \<open>
  Claim C3. In a state with \<open>maxId \<ge> 0\<close> and \<open>0 \<le> currentId \<le> maxId\<close>, \<open>next()\<close>
  returns true, sets the current ID to \<open>(currentId + 1) mod (maxId + 1)\<close> and emits
  \<open>imageIdChanged\<close> with the new ID; \<open>previous()\<close> returns true, sets the current ID
  to \<open>maxId\<close> when it was 0 and to \<open>currentId - 1\<close> otherwise, and emits
  \<open>imageIdChanged\<close> with the new ID. A navigator constructed with initial ID 0 and
  maximum 4 reports 1, 2, 3, 4 on four calls of \<open>next()\<close>, 0 on the fifth, and 4 on a
  following \<open>previous()\<close>.
\<close>

theorem next_previous_wrap_around:
  assumes "0 \<le> sint (m_maxImageId nav)" and "0 \<le> sint (m_currentImageId nav)"
    and "sint (m_currentImageId nav) \<le> sint (m_maxImageId nav)"
  shows "(\<exists>c. UINavigator_next nav = (True, [c], nav\<lparr>m_currentImageId := c\<rparr>) \<and>
              sint c = (sint (m_currentImageId nav) + 1) mod (sint (m_maxImageId nav) + 1)) \<and>
         (\<exists>c. UINavigator_previous nav = (True, [c], nav\<lparr>m_currentImageId := c\<rparr>) \<and>
              sint c = (if sint (m_currentImageId nav) = 0 then sint (m_maxImageId nav)
                        else sint (m_currentImageId nav) - 1)) \<and>
         nav_run [Next, Next, Next, Next, Next, Previous] (UINavigator_ctor 0 4) =
           ([1, 2, 3, 4, 0, 4], \<lparr>m_currentImageId = 4, m_maxImageId = 4\<rparr>)"
proof (intro conjI)
  let ?c = "if m_currentImageId nav = m_maxImageId nav then 0 else m_currentImageId nav + 1"
  have "UINavigator_next nav = (True, [?c], nav\<lparr>m_currentImageId := ?c\<rparr>)"
    using next_unfold [OF assms] by (simp add: Let_def)
  moreover have "sint ?c = (sint (m_currentImageId nav) + 1) mod (sint (m_maxImageId nav) + 1)"
    using sint_wrap_succ [OF assms(2,3)] .
  ultimately show "\<exists>c. UINavigator_next nav = (True, [c], nav\<lparr>m_currentImageId := c\<rparr>) \<and>
      sint c = (sint (m_currentImageId nav) + 1) mod (sint (m_maxImageId nav) + 1)"
    by blast
next
  let ?c = "if m_currentImageId nav = 0 then m_maxImageId nav else m_currentImageId nav - 1"
  have "UINavigator_previous nav = (True, [?c], nav\<lparr>m_currentImageId := ?c\<rparr>)"
    using previous_unfold [OF assms(1)] by (simp add: Let_def)
  moreover have "sint ?c = (if sint (m_currentImageId nav) = 0 then sint (m_maxImageId nav)
                  else sint (m_currentImageId nav) - 1)"
    using assms(2) by (auto simp add: sint_pred cint_eq_iff)
  ultimately show "\<exists>c. UINavigator_previous nav = (True, [c], nav\<lparr>m_currentImageId := c\<rparr>) \<and>
      sint c = (if sint (m_currentImageId nav) = 0 then sint (m_maxImageId nav)
                else sint (m_currentImageId nav) - 1)"
    by blast
next
  show "nav_run [Next, Next, Next, Next, Next, Previous] (UINavigator_ctor 0 4) =
      ([1, 2, 3, 4, 0, 4], \<lparr>m_currentImageId = 4, m_maxImageId = 4\<rparr>)"
    by (simp add: UINavigator_ctor_def UINavigator_next_def UINavigator_previous_def
        c_rem_def smod_int_alt_def word_sless_alt)
qed

text \<open>At the last image of a gallery of five, \<open>next()\<close> wraps to 0 and \<open>previous()\<close> steps to 3.\<close>

theorem next_previous_wrap_around_witness:
  "UINavigator_next \<lparr>m_currentImageId = 4, m_maxImageId = 4\<rparr> =
     (True, [0], \<lparr>m_currentImageId = 0, m_maxImageId = 4\<rparr>) \<and>
   UINavigator_previous \<lparr>m_currentImageId = 4, m_maxImageId = 4\<rparr> =
     (True, [3], \<lparr>m_currentImageId = 3, m_maxImageId = 4\<rparr>)"
proof -
  let ?nav = "\<lparr>m_currentImageId = 4, m_maxImageId = 4\<rparr>"
  have h: "0 \<le> sint (m_maxImageId ?nav)" "0 \<le> sint (m_currentImageId ?nav)"
      "sint (m_currentImageId ?nav) \<le> sint (m_maxImageId ?nav)"
    by simp_all
  from next_previous_wrap_around [OF h]
  obtain c d where c: "UINavigator_next ?nav = (True, [c], ?nav\<lparr>m_currentImageId := c\<rparr>)"
      "sint c = (sint (m_currentImageId ?nav) + 1) mod (sint (m_maxImageId ?nav) + 1)"
    and d: "UINavigator_previous ?nav = (True, [d], ?nav\<lparr>m_currentImageId := d\<rparr>)"
      "sint d = (if sint (m_currentImageId ?nav) = 0 then sint (m_maxImageId ?nav)
                 else sint (m_currentImageId ?nav) - 1)"
    by blast
  from c(2) have "c = 0" by (simp add: cint_eq_iff)
  moreover from d(2) have "d = 3" by (simp add: cint_eq_iff)
  ultimately show ?thesis using c(1) d(1) by simp
qed

text \<open>
  Claim C10. In a state with \<open>maxId \<ge> 0\<close> and \<open>0 \<le> currentId \<le> maxId\<close>, \<open>next()\<close>
  followed by \<open>previous()\<close> restores the state, and so does \<open>previous()\<close> followed by
  \<open>next()\<close>: the two are inverse to each other on the current ID.
\<close>

theorem next_previous_inverse:
  assumes "0 \<le> sint (m_maxImageId nav)" and "0 \<le> sint (m_currentImageId nav)"
    and "sint (m_currentImageId nav) \<le> sint (m_maxImageId nav)"
  shows "snd (snd (UINavigator_previous (snd (snd (UINavigator_next nav))))) = nav \<and>
         snd (snd (UINavigator_next (snd (snd (UINavigator_previous nav))))) = nav"
proof
  show "snd (snd (UINavigator_previous (snd (snd (UINavigator_next nav))))) = nav"
    using assms sint_cint_bounds [of "m_maxImageId nav"]
    by (auto simp add: next_unfold previous_unfold Let_def cint_eq_iff sint_succ)
next
  let ?p = "snd (snd (UINavigator_previous nav))"
  have p: "?p = nav\<lparr>m_currentImageId :=
      (if m_currentImageId nav = 0 then m_maxImageId nav else m_currentImageId nav - 1)\<rparr>"
    using assms(1) by (simp add: previous_unfold Let_def)
  have b: "0 \<le> sint (m_maxImageId ?p)" "0 \<le> sint (m_currentImageId ?p)"
      "sint (m_currentImageId ?p) \<le> sint (m_maxImageId ?p)"
    using assms unfolding p by (auto simp add: sint_pred cint_eq_iff)
  show "snd (snd (UINavigator_next ?p)) = nav"
    unfolding next_unfold [OF b] using assms unfolding p
    by (auto simp add: Let_def cint_eq_iff sint_pred)
qed

text \<open>Both round trips at the two ends of a gallery of five.\<close>

theorem next_previous_inverse_witness:
  "snd (snd (UINavigator_previous (snd (snd (UINavigator_next
      \<lparr>m_currentImageId = 4, m_maxImageId = 4\<rparr>))))) = \<lparr>m_currentImageId = 4, m_maxImageId = 4\<rparr> \<and>
   snd (snd (UINavigator_next (snd (snd (UINavigator_previous
      \<lparr>m_currentImageId = 0, m_maxImageId = 4\<rparr>))))) = \<lparr>m_currentImageId = 0, m_maxImageId = 4\<rparr>"
  using next_previous_inverse [of "\<lparr>m_currentImageId = 4, m_maxImageId = 4\<rparr>"]
    next_previous_inverse [of "\<lparr>m_currentImageId = 0, m_maxImageId = 4\<rparr>"]
  by simp

text \<open>
  Claim C5. \<open>setMaxImageId(newMax)\<close> takes a negative \<open>newMax\<close> as 0. If the value so
  normalised is the current maximum, the state is unchanged and nothing is emitted.
  Otherwise it becomes the maximum; if the current ID exceeds it, the current ID becomes
  the new maximum and \<open>imageIdChanged\<close> is emitted with it, and if not, the current ID
  stays and nothing is emitted.
\<close>

theorem setMaxImageId_normalises_and_clamps:
  "UINavigator_setMaxImageId newMax nav =
     (let m = (if sint newMax < 0 then 0 else newMax) in
      if m = m_maxImageId nav then ([], nav)
      else if sint m < sint (m_currentImageId nav)
           then ([m], \<lparr>m_currentImageId = m, m_maxImageId = m\<rparr>)
           else ([], nav\<lparr>m_maxImageId := m\<rparr>))"
  by (auto simp add: UINavigator_setMaxImageId_def Let_def word_sless_alt)

text \<open>\<open>setMaxImageId(-5)\<close> at image 3 of 8 leaves a gallery of one image, at ID 0.\<close>

theorem setMaxImageId_normalises_and_clamps_witness:
  "UINavigator_setMaxImageId (- 5) \<lparr>m_currentImageId = 3, m_maxImageId = 7\<rparr> =
     ([0], \<lparr>m_currentImageId = 0, m_maxImageId = 0\<rparr>)"
  using setMaxImageId_normalises_and_clamps [of "- 5" "\<lparr>m_currentImageId = 3, m_maxImageId = 7\<rparr>"]
  by simp

text \<open>
  The invariant of the specification: it holds after construction with a maximum that
  is not negative, and every call keeps it.
\<close>

lemma nav_inv_ctor:
  assumes "0 \<le>s maxImageId"
  shows "nav_inv (UINavigator_ctor initialImageId maxImageId)"
  using assms by (auto simp add: UINavigator_ctor_def nav_inv_def Let_def word_sless_alt word_sle_eq)

lemma nav_inv_call:
  assumes "nav_inv nav"
  shows "nav_inv (snd (nav_call_run call nav))"
proof (cases call)
  case Next
  show ?thesis
  proof (cases "0 \<le> sint (m_maxImageId nav)")
    case True
    with assms have b: "0 \<le> sint (m_currentImageId nav)"
        "sint (m_currentImageId nav) \<le> sint (m_maxImageId nav)"
      by (simp_all add: nav_inv_def word_sle_eq)
    show ?thesis
      using True b sint_cint_bounds [of "m_maxImageId nav"]
      by (auto simp add: Next next_unfold [OF True b] Let_def nav_inv_def word_sle_eq sint_succ
          cint_eq_iff)
  next
    case False
    with assms show ?thesis
      by (simp add: Next UINavigator_next_def word_sless_alt)
  qed
next
  case Previous
  show ?thesis
  proof (cases "0 \<le> sint (m_maxImageId nav)")
    case True
    with assms show ?thesis
      by (auto simp add: Previous previous_unfold [OF True] Let_def nav_inv_def word_sle_eq
          sint_pred cint_eq_iff)
  next
    case False
    with assms show ?thesis
      by (simp add: Previous UINavigator_previous_def word_sless_alt)
  qed
next
  case (SetMaxImageId m)
  with assms show ?thesis
    by (auto simp add: UINavigator_setMaxImageId_def Let_def nav_inv_def word_sle_eq
        word_sless_alt split: if_splits)
qed

lemma nav_inv_run:
  assumes "nav_inv nav"
  shows "nav_inv (snd (nav_run calls nav))"
  using assms
proof (induction calls arbitrary: nav)
  case Nil
  then show ?case by simp
next
  case (Cons c cs)
  from Cons.prems have "nav_inv (snd (nav_call_run c nav))" by (rule nav_inv_call)
  then have "nav_inv (snd (nav_run cs (snd (nav_call_run c nav))))" by (rule Cons.IH)
  then show ?case by (simp add: split_beta)
qed

lemma navigation_fails_without_images:
  assumes "m_maxImageId nav <s 0"
  shows "UINavigator_next nav = (False, [], nav)" and "UINavigator_previous nav = (False, [], nav)"
  using assms by (simp_all add: UINavigator_next_def UINavigator_previous_def)

text \<open>
  Claim C1. Every state reachable through the constructor, \<open>next()\<close>, \<open>previous()\<close> and
  \<open>setMaxImageId()\<close> should satisfy \<open>0 \<le> currentId \<le> maxId\<close> when \<open>maxId \<ge> 0\<close> and
  \<open>currentId = 0\<close> when \<open>maxId < 0\<close>, for any arguments of the constructor. The
  constructor clamps the initial ID to 0 from below and then to the maximum from above,
  so with the maximum -1 (an empty gallery) it leaves the current ID at -1. A following
  \<open>setMaxImageId(-1)\<close> raises the maximum to 0 and keeps the current ID -1, and
  \<open>previous()\<close> then moves to -2 and announces it.
\<close>

theorem ctor_negative_max_breaks_invariant:
  "UINavigator_ctor 0 (- 1) = \<lparr>m_currentImageId = - 1, m_maxImageId = - 1\<rparr> \<and>
   \<not> nav_inv (UINavigator_ctor 0 (- 1)) \<and>
   nav_run [SetMaxImageId (- 1)] (UINavigator_ctor 0 (- 1)) =
     ([], \<lparr>m_currentImageId = - 1, m_maxImageId = 0\<rparr>) \<and>
   nav_run [SetMaxImageId (- 1), Previous] (UINavigator_ctor 0 (- 1)) =
     ([- 2], \<lparr>m_currentImageId = - 2, m_maxImageId = 0\<rparr>)"
  by (simp add: UINavigator_ctor_def UINavigator_setMaxImageId_def UINavigator_previous_def
      nav_inv_def word_sless_alt word_sle_eq)


section \<open>The cache\<close>

lemma cache_call_run_other:
  assumes "\<not> disturbs id' x"
  shows "cache_call_run x c id' = c id'"
  using assms
  by (cases x) (auto simp add: ImageCache_setImage_def ImageCache_removeImage_def)

lemma cache_run_undisturbed:
  assumes "\<forall>x \<in> set calls. \<not> disturbs id' x"
  shows "cache_run calls c id' = c id'"
  using assms
proof (induction calls arbitrary: c)
  case Nil
  then show ?case by simp
next
  case (Cons x xs)
  then have "cache_run xs (cache_call_run x c) id' = cache_call_run x c id'" by simp
  also from Cons.prems have "\<dots> = c id'" by (simp add: cache_call_run_other)
  finally show ?case by simp
qed

text \<open>
  Claim C4. After \<open>setImage(id, image)\<close> with a non-null image, \<open>contains(id)\<close> is
  true and \<open>getImage(id)\<close> returns that image, and both stay so over any later calls
  none of which removes \<open>id\<close>, clears the cache or stores another image under \<open>id\<close>.
  \<open>getImage\<close> of an absent ID returns the null image; it has a result for every cache
  and ID.
\<close>

theorem setImage_then_getImage:
  "(\<not> isNull image' \<and> (\<forall>x \<in> set calls. \<not> disturbs id' x) \<longrightarrow>
      ImageCache_contains (cache_run calls (ImageCache_setImage id' image' c)) id' \<and>
      ImageCache_getImage (cache_run calls (ImageCache_setImage id' image' c)) id' = image') \<and>
   (\<not> ImageCache_contains c id' \<longrightarrow> ImageCache_getImage c id' = NullImage)"
proof (intro conjI impI)
  assume a: "\<not> isNull image' \<and> (\<forall>x \<in> set calls. \<not> disturbs id' x)"
  then have "cache_run calls (ImageCache_setImage id' image' c) id' = Some image'"
    by (simp add: cache_run_undisturbed ImageCache_setImage_def)
  then show "ImageCache_contains (cache_run calls (ImageCache_setImage id' image' c)) id'"
    and "ImageCache_getImage (cache_run calls (ImageCache_setImage id' image' c)) id' = image'"
    by (simp_all add: ImageCache_contains_def ImageCache_getImage_def QHash_contains_def
        QHash_value_def)
next
  assume "\<not> ImageCache_contains c id'"
  then show "ImageCache_getImage c id' = NullImage"
    by (simp add: ImageCache_contains_def ImageCache_getImage_def)
qed

text \<open>An entry survives calls on other IDs and a rejected null image; a missing entry reads as null.\<close>

theorem setImage_then_getImage_witness:
  "ImageCache_contains
      (cache_run [SetImage 4 (Pixels (Decoded ''b'')), RemoveImage 5, SetImage 3 NullImage]
         (ImageCache_setImage 3 (Pixels (Decoded ''a'')) ImageCache_ctor)) 3 \<and>
   ImageCache_getImage
      (cache_run [SetImage 4 (Pixels (Decoded ''b'')), RemoveImage 5, SetImage 3 NullImage]
         (ImageCache_setImage 3 (Pixels (Decoded ''a'')) ImageCache_ctor)) 3 = Pixels (Decoded ''a'') \<and>
   ImageCache_getImage (ImageCache_ctor :: pixmap ImageCache) 7 = NullImage"
  using setImage_then_getImage [of "Pixels (Decoded ''a'')"
      "[SetImage 4 (Pixels (Decoded ''b'')), RemoveImage 5, SetImage 3 NullImage]" 3 ImageCache_ctor]
    setImage_then_getImage [of NullImage "[]" 7 "ImageCache_ctor :: pixmap ImageCache"]
  by (simp add: ImageCache_contains_def QHash_contains_def ImageCache_ctor_def)

lemma no_null_call:
  assumes "\<forall>k image'. c k = Some image' \<longrightarrow> \<not> isNull image'"
  shows "\<forall>k image'. cache_call_run x c k = Some image' \<longrightarrow> \<not> isNull image'"
  using assms
  by (cases x)
    (auto simp add: ImageCache_setImage_def ImageCache_removeImage_def ImageCache_clear_def
      split: if_splits)

lemma no_null_run:
  assumes "\<forall>k image'. c k = Some image' \<longrightarrow> \<not> isNull image'"
  shows "\<forall>k image'. cache_run calls c k = Some image' \<longrightarrow> \<not> isNull image'"
  using assms
proof (induction calls arbitrary: c)
  case Nil
  then show ?case by simp
next
  case (Cons x xs)
  from Cons.prems have "\<forall>k image'. cache_call_run x c k = Some image' \<longrightarrow> \<not> isNull image'"
    by (rule no_null_call)
  then show ?case using Cons.IH by simp
qed

text \<open>
  Claim C8. \<open>setImage(id, image)\<close> with a null image leaves the whole cache as it
  was and returns normally; so no sequence of calls on a new cache ever stores a null
  image under any key.
\<close>

theorem setImage_null_rejected:
  "(isNull image' \<longrightarrow> ImageCache_setImage id' image' c = c) \<and>
   (\<forall>k stored. cache_run calls ImageCache_ctor k = Some stored \<longrightarrow> \<not> isNull stored)"
proof
  show "isNull image' \<longrightarrow> ImageCache_setImage id' image' c = c"
    by (simp add: ImageCache_setImage_def)
next
  have "\<forall>k stored. (ImageCache_ctor :: 'b ImageCache) k = Some stored \<longrightarrow> \<not> isNull stored"
    by (simp add: ImageCache_ctor_def)
  then show "\<forall>k stored. cache_run calls (ImageCache_ctor :: 'b ImageCache) k = Some stored
      \<longrightarrow> \<not> isNull stored"
    by (rule no_null_run)
qed

text \<open>A null image offered for a key that holds an image does not replace it.\<close>

theorem setImage_null_rejected_witness:
  "isNull (NullImage :: pixmap QImage) \<and>
   ImageCache_setImage 2 NullImage (ImageCache_setImage 2 (Pixels (Decoded ''a'')) ImageCache_ctor) =
     ImageCache_setImage 2 (Pixels (Decoded ''a'')) ImageCache_ctor \<and>
   cache_run [SetImage 1 (Pixels (Decoded ''a'')), SetImage 1 NullImage] ImageCache_ctor 1 =
     Some (Pixels (Decoded ''a'')) \<and>
   \<not> isNull (Pixels (Decoded ''a''))"
  using setImage_null_rejected [of NullImage 2
      "ImageCache_setImage 2 (Pixels (Decoded ''a'')) ImageCache_ctor"
      "[SetImage 1 (Pixels (Decoded ''a'')), SetImage 1 NullImage]"]
  by (simp add: ImageCache_setImage_def ImageCache_ctor_def)


section \<open>The loader\<close>

lemma fold_append_each: "fold (\<lambda>x acc. acc @ [x]) xs acc = acc @ xs"
  by (induction xs arbitrary: acc) simp_all

lemma populateImagePaths_paths:
  "m_imagePaths (populateImagePaths env l) =
     (if qdir_exists env (m_imageDirPath l)
      then qdir_entryInfoList env (m_imageDirPath l)
             [''*.png'', ''*.jpg'', ''*.jpeg'', ''*.gif'', ''*.bmp'', ''*.webp'']
      else m_imagePaths l)"
  by (simp add: populateImagePaths_def Let_def fold_append_each)

lemma gallery_loader_eq:
  "gallery_loader size' =
     \<lparr>m_imageDirPath = ''/gallery'', m_maxConfiguredImages = 15, m_maxPreviewSize = size',
      m_imagePaths = gallery_files, m_imageCache = Some Map.empty\<rparr>"
  by (simp add: gallery_loader_def ImageLoader_ctor_def populateImagePaths_def gallery_env_def
      Let_def fold_append_each ImageCache_ctor_def)

lemma sint_QVector_size:
  assumes "length xs < 2147483648"
  shows "sint (QVector_size xs) = int (length xs)"
proof -
  have u: "uint (word_of_nat (length xs) :: cint) = int (length xs)"
    using assms by (simp add: uint_nat unat_of_nat)
  have "signed_take_bit 31 (int (length xs)) = int (length xs)"
    using assms by (intro signed_take_bit_int_eq_self) simp_all
  with u show ?thesis by (simp add: QVector_size_def sint_uint)
qed

lemma gallery_imageCount: "imageCount (gallery_loader size') = 15"
  by (simp add: gallery_loader_eq gallery_files_def imageCount_def qMax_def QVector_size_def
      word_sless_alt)

text \<open>
  Claim C9. \<open>imageCount()\<close> is the maximum of the length of the path table and the
  configured maximum gallery size (a \<open>QVector\<close> holds fewer than \<open>2^31\<close> entries);
  with three images found and a configured maximum of 15 it returns 15.
\<close>

theorem imageCount_is_max:
  "(length (m_imagePaths l) < 2147483648 \<longrightarrow>
      sint (imageCount l) = max (int (length (m_imagePaths l))) (sint (m_maxConfiguredImages l))) \<and>
   (length (m_imagePaths l) = 3 \<and> m_maxConfiguredImages l = 15 \<longrightarrow> imageCount l = 15)"
proof (intro conjI impI)
  assume "length (m_imagePaths l) < 2147483648"
  then show "sint (imageCount l) =
      max (int (length (m_imagePaths l))) (sint (m_maxConfiguredImages l))"
    by (simp add: imageCount_def qMax_def word_sless_alt sint_QVector_size)
next
  assume "length (m_imagePaths l) = 3 \<and> m_maxConfiguredImages l = 15"
  then show "imageCount l = 15"
    by (simp add: imageCount_def qMax_def QVector_size_def word_sless_alt)
qed

text \<open>The loader constructed on the directory of three files with the maximum 15.\<close>

theorem imageCount_is_max_witness:
  "length (m_imagePaths (gallery_loader full_hd)) = 3 \<and>
   m_maxConfiguredImages (gallery_loader full_hd) = 15 \<and>
   imageCount (gallery_loader full_hd) = 15 \<and>
   sint (imageCount (gallery_loader full_hd)) = max 3 15"
  using imageCount_is_max [of "gallery_loader full_hd"]
  by (simp add: gallery_loader_eq gallery_files_def)

text \<open>
  Claim C2. For an \<open>id\<close> that is negative or at least \<open>imageCount()\<close>,
  \<open>loadImageAsync(id)\<close> emits exactly one signal before it returns, \<open>loadingError\<close>
  with that \<open>id\<close> and the message \<open>Image ID out of bounds.\<close> (the literal of the code
  ends with a full stop); it emits no \<open>imageLoaded\<close> and starts no timer, so nothing
  follows later for the request.
\<close>

theorem loadImageAsync_out_of_bounds:
  assumes "sint id' < 0 \<or> sint (imageCount l) \<le> sint id'"
  shows "loadImageAsync env id' l = ([loadingError id' ''Image ID out of bounds.''], [])"
  using assms by (auto simp add: loadImageAsync_def word_sless_alt word_sle_eq)

text \<open>The first ID past the gallery, and a negative one.\<close>

theorem loadImageAsync_out_of_bounds_witness:
  "sint (imageCount (gallery_loader full_hd)) \<le> sint (15 :: cint) \<and>
   loadImageAsync gallery_env 15 (gallery_loader full_hd) =
     ([loadingError 15 ''Image ID out of bounds.''], []) \<and>
   sint (- 1 :: cint) < 0 \<and>
   loadImageAsync gallery_env (- 1) (gallery_loader full_hd) =
     ([loadingError (- 1) ''Image ID out of bounds.''], [])"
proof -
  have c: "imageCount (gallery_loader full_hd) = 15"
    by (simp add: gallery_loader_eq gallery_files_def imageCount_def qMax_def QVector_size_def
        word_sless_alt)
  have h1: "sint (15 :: cint) < 0 \<or> sint (imageCount (gallery_loader full_hd)) \<le> sint (15 :: cint)"
    by (simp add: c)
  have h2: "sint (- 1 :: cint) < 0 \<or> sint (imageCount (gallery_loader full_hd)) \<le> sint (- 1 :: cint)"
    by simp
  show ?thesis
    using loadImageAsync_out_of_bounds [OF h1, of gallery_env]
      loadImageAsync_out_of_bounds [OF h2, of gallery_env]
    by (simp add: c)
qed

lemma at_in_range:
  assumes "id' <s QVector_size xs" and "0 \<le> sint id'"
  shows "nat (sint id') < length xs"
proof -
  have "uint (word_of_nat (length xs) :: cint) = int (length xs mod 2 ^ 32)"
    by (simp add: uint_nat unat_of_nat)
  also have "\<dots> \<le> int (length xs)"
    by (simp only: of_nat_le_iff mod_less_eq_dividend)
  finally have "sint (QVector_size xs) \<le> int (length xs)"
    using cint_sint_le_uint [of "QVector_size xs"] by (simp add: QVector_size_def)
  with assms show ?thesis
    by (simp add: word_sless_alt)
qed

lemma timeout_unfold:
  assumes "0 \<le> sint id'"
  shows "loadImageAsync_timeout env id' l =
    (let loadedImage =
           (if id' <s QVector_size (m_imagePaths l) then
              (if isNull (qimage_load env (m_imagePaths l ! nat (sint id')))
               then generatePlaceholderImage env l id'
               else qimage_load env (m_imagePaths l ! nat (sint id')))
            else generatePlaceholderImage env l id')
     in if isNull loadedImage
        then Some ([loadingError id' ''Failed to load or generate image.''], l)
        else Some ([imageLoaded id' (qimage_scaled env loadedImage (m_maxPreviewSize l))],
               l\<lparr>m_imageCache :=
                   map_option
                     (ImageCache_setImage id' (qimage_scaled env loadedImage (m_maxPreviewSize l)))
                     (m_imageCache l)\<rparr>))"
proof (cases "id' <s QVector_size (m_imagePaths l)")
  case True
  from True assms have "nat (sint id') < length (m_imagePaths l)" by (rule at_in_range)
  with True assms show ?thesis
    by (cases "m_imageCache l") (simp_all add: loadImageAsync_timeout_def Let_def)
next
  case False
  then show ?thesis
    by (cases "m_imageCache l") (simp_all add: loadImageAsync_timeout_def Let_def)
qed

lemma timeout_one_signal:
  assumes "0 \<le> sint id'"
  shows "\<exists>s l'. loadImageAsync_timeout env id' l = Some ([s], l') \<and> signal_id s = id'"
  unfolding timeout_unfold [OF assms] Let_def by (simp split: if_splits)

text \<open>
  Claim C6. One call of \<open>loadImageAsync(id)\<close> gives exactly one terminal signal for
  the request, \<open>imageLoaded\<close> or \<open>loadingError\<close> with that \<open>id\<close>, never both and
  never none. When the \<open>id\<close> is out of bounds or cached, the signal is emitted before
  the call returns and no timer is started. Otherwise the call emits nothing and starts
  one single-shot timer, and its callback, on whatever state the loader then has, emits
  exactly one signal.
\<close>

theorem loadImageAsync_one_terminal_signal:
  "if (sint id' < 0 \<or> sint (imageCount l) \<le> sint id') \<or>
      (\<exists>c. m_imageCache l = Some c \<and> ImageCache_contains c id')
   then (\<exists>s. loadImageAsync env id' l = ([s], []) \<and> signal_id s = id')
   else loadImageAsync env id' l = ([], [id']) \<and>
        (\<forall>later. \<exists>s l'. loadImageAsync_timeout env id' later = Some ([s], l') \<and> signal_id s = id')"
proof (cases "sint id' < 0 \<or> sint (imageCount l) \<le> sint id'")
  case True
  then show ?thesis by (auto simp add: loadImageAsync_def word_sless_alt word_sle_eq)
next
  case False
  then have nonneg: "0 \<le> sint id'" by simp
  show ?thesis
  proof (cases "\<exists>c. m_imageCache l = Some c \<and> ImageCache_contains c id'")
    case True
    with False show ?thesis by (auto simp add: loadImageAsync_def word_sless_alt word_sle_eq)
  next
    case nohit: False
    from False nohit have "loadImageAsync env id' l = ([], [id'])"
      by (cases "m_imageCache l") (auto simp add: loadImageAsync_def word_sless_alt word_sle_eq)
    moreover have "\<forall>later. \<exists>s l'. loadImageAsync_timeout env id' later = Some ([s], l') \<and>
        signal_id s = id'"
      using timeout_one_signal [OF nonneg] by blast
    ultimately show ?thesis using False nohit by simp
  qed
qed

text \<open>An ID past the gallery is answered at once; ID 10 is answered by the timer.\<close>

theorem loadImageAsync_one_terminal_signal_witness:
  "loadImageAsync gallery_env 15 (gallery_loader full_hd) =
     ([loadingError 15 ''Image ID out of bounds.''], []) \<and>
   loadImageAsync gallery_env 10 (gallery_loader full_hd) = ([], [10]) \<and>
   (\<exists>s l'. loadImageAsync_timeout gallery_env 10 (gallery_loader full_hd) = Some ([s], l') \<and>
      signal_id s = 10)"
proof -
  have nohit: "\<not> (\<exists>c. m_imageCache (gallery_loader full_hd) = Some c \<and> ImageCache_contains c 10)"
    by (simp add: gallery_loader_eq ImageCache_contains_def QHash_contains_def)
  from loadImageAsync_one_terminal_signal [of 10 "gallery_loader full_hd" gallery_env] nohit
  have "loadImageAsync gallery_env 10 (gallery_loader full_hd) = ([], [10]) \<and>
      (\<forall>later. \<exists>s l'. loadImageAsync_timeout gallery_env 10 later = Some ([s], l') \<and>
         signal_id s = 10)"
    by (simp add: gallery_imageCount)
  moreover have "loadImageAsync gallery_env 15 (gallery_loader full_hd) =
      ([loadingError 15 ''Image ID out of bounds.''], [])"
    by (simp add: loadImageAsync_def gallery_imageCount word_sless_alt word_sle_eq)
  ultimately show ?thesis by blast
qed

text \<open>
  Claim C7, as amended. For an \<open>id\<close> that indexes a path of the path table whose file
  cannot be decoded, the callback generates the placeholder for that \<open>id\<close>. When the
  placeholder is not null, it scales it, stores the scaled image in the cache if the
  loader has one (through \<open>setImage\<close>, which ignores a null image) and emits
  \<open>imageLoaded\<close> with the scaled image, and no \<open>loadingError\<close>. When the placeholder is
  null as well, it emits \<open>loadingError\<close> with the message
  \<open>Failed to load or generate image.\<close> and leaves the cache as it was.
\<close>

theorem decode_failure_placeholder_fallback:
  assumes "0 \<le> sint id'" and "id' <s QVector_size (m_imagePaths l)"
    and "isNull (qimage_load env (m_imagePaths l ! nat (sint id')))"
  shows "loadImageAsync_timeout env id' l =
    (if isNull (generatePlaceholderImage env l id')
     then Some ([loadingError id' ''Failed to load or generate image.''], l)
     else Some ([imageLoaded id'
                   (qimage_scaled env (generatePlaceholderImage env l id') (m_maxPreviewSize l))],
            l\<lparr>m_imageCache :=
                map_option
                  (ImageCache_setImage id'
                     (qimage_scaled env (generatePlaceholderImage env l id') (m_maxPreviewSize l)))
                  (m_imageCache l)\<rparr>))"
  using assms(2,3) unfolding timeout_unfold [OF assms(1)] by (simp add: Let_def)

text \<open>The second file of the gallery cannot be decoded: its placeholder, scaled, is loaded and cached.\<close>

theorem decode_failure_placeholder_fallback_witness:
  "0 \<le> sint (1 :: cint) \<and>
   1 <s QVector_size (m_imagePaths (gallery_loader full_hd)) \<and>
   isNull (qimage_load gallery_env (m_imagePaths (gallery_loader full_hd) ! nat (sint (1 :: cint)))) \<and>
   loadImageAsync_timeout gallery_env 1 (gallery_loader full_hd) =
     Some ([imageLoaded 1
              (Pixels (Resampled full_hd (Numbered 1 (Filled ''#444444'' (Blank full_hd)))))],
           (gallery_loader full_hd)
             \<lparr>m_imageCache := Some [1 \<mapsto>
                Pixels (Resampled full_hd (Numbered 1 (Filled ''#444444'' (Blank full_hd))))]\<rparr>)"
proof -
  have h1: "0 \<le> sint (1 :: cint)" by simp
  have h2: "1 <s QVector_size (m_imagePaths (gallery_loader full_hd))"
    by (simp add: gallery_loader_eq gallery_files_def QVector_size_def word_sless_alt)
  have h3: "isNull (qimage_load gallery_env
      (m_imagePaths (gallery_loader full_hd) ! nat (sint (1 :: cint))))"
    by (simp add: gallery_loader_eq gallery_files_def gallery_env_def)
  have ph: "generatePlaceholderImage gallery_env (gallery_loader full_hd) 1 =
      Pixels (Numbered 1 (Filled ''#444444'' (Blank full_hd)))"
    by (simp add: generatePlaceholderImage_def gallery_loader_eq gallery_env_def full_hd_def
        QSize_isEmpty_def word_sless_alt)
  have sc: "qimage_scaled gallery_env (Pixels (Numbered 1 (Filled ''#444444'' (Blank full_hd))))
      (m_maxPreviewSize (gallery_loader full_hd)) =
      Pixels (Resampled full_hd (Numbered 1 (Filled ''#444444'' (Blank full_hd))))"
    by (simp add: gallery_loader_eq gallery_env_def full_hd_def QSize_isEmpty_def word_sless_alt)
  have ca: "m_imageCache (gallery_loader full_hd) = Some Map.empty"
    by (simp add: gallery_loader_eq)
  show ?thesis
    using decode_failure_placeholder_fallback [OF h1 h2 h3] h1 h2 h3
    by (simp add: ph sc ca ImageCache_setImage_def)
qed

text \<open>
  The claim without the amendment fails for a loader whose maximum preview size is
  empty: \<open>QImage(size, format)\<close> is then null, the placeholder stays null, and the
  decode failure of the second file ends in \<open>loadingError\<close>.
\<close>

theorem decode_failure_total_failure_counterexample:
  "\<not> 1 <s (0 :: cint) \<and>
   \<not> imageCount (gallery_loader empty_size) \<le>s 1 \<and>
   loadImageAsync gallery_env 1 (gallery_loader empty_size) = ([], [1]) \<and>
   1 <s QVector_size (m_imagePaths (gallery_loader empty_size)) \<and>
   isNull (qimage_load gallery_env (m_imagePaths (gallery_loader empty_size) ! 1)) \<and>
   loadImageAsync_timeout gallery_env 1 (gallery_loader empty_size) =
     Some ([loadingError 1 ''Failed to load or generate image.''], gallery_loader empty_size)"
  by (simp add: imageCount_def qMax_def loadImageAsync_def loadImageAsync_timeout_def
      gallery_loader_eq gallery_files_def gallery_env_def generatePlaceholderImage_def
      empty_size_def QSize_isEmpty_def QVector_size_def ImageCache_contains_def
      QHash_contains_def word_sless_alt word_sle_eq)

end
